theory Spec2Isabelle
  imports Main "HOL-Library.AList"
begin

section \<open>Python values: errors, dictionaries, truthiness, number formatting\<close>

text \<open>
  Exceptions of the source are values. \<open>KeyError\<close>, \<open>TypeError\<close> and \<open>IndexError\<close> are
  the exceptions Python raises by itself on a subscript; \<open>PublishError\<close> is the one the
  publisher raises, with its message.
\<close>

datatype error = KeyError | TypeError | IndexError | PublishError string

text \<open>
  A Python \<open>dict\<close> is an association list in insertion order. \<open>d[k] = v\<close> is
  \<open>AList.update k v d\<close> (the value is replaced in place when the key is there, the pair is
  appended otherwise), \<open>k in d\<close> is \<open>k \<in> fst ` set d\<close>, and \<open>d[k]\<close> is \<open>getitem\<close>,
  which raises \<open>KeyError\<close> on a missing key.
\<close>

definition getitem :: "('k \<times> 'v) list \<Rightarrow> 'k \<Rightarrow> error + 'v" where
  "getitem d k = (case map_of d k of None \<Rightarrow> Inl KeyError | Some v \<Rightarrow> Inr v)"

text \<open>
  A credential value is \<open>None\<close> or a \<open>str\<close>; \<open>truthy\<close> is what \<open>if v:\<close> tests.
\<close>

fun truthy :: "string option \<Rightarrow> bool" where
  "truthy None = False"
| "truthy (Some s) = (s \<noteq> [])"

text \<open>\<open>"%d" % n\<close> and \<open>f"{n}"\<close> for a length \<open>n\<close>: the decimal digits.\<close>

definition digit_char :: "nat \<Rightarrow> char" where
  "digit_char d = ''0123456789'' ! d"

fun decimal :: "nat \<Rightarrow> string" where
  "decimal n = (if n < 10 then [digit_char n] else decimal (n div 10) @ [digit_char (n mod 10)])"

declare decimal.simps [simp del]

section \<open>Credentials\<close>

text \<open>
  The credentials dictionary is a mutable object shared between the environment and the
  publisher, so it lives in a store of objects: \<open>cells h a\<close> is the dictionary at address
  \<open>a\<close>, and \<open>fresh h\<close> is the next unused address.
\<close>

type_synonym creds = "(string \<times> string option) list"

type_synonym addr = nat

record heap =
  cells :: "addr \<Rightarrow> creds"
  fresh :: addr

text \<open>\<open>obj[k] = v\<close> for the dictionary object at address \<open>a\<close>.\<close>

definition setitem :: "addr \<Rightarrow> string \<Rightarrow> string option \<Rightarrow> heap \<Rightarrow> heap" where
  "setitem a k v h = h\<lparr>cells := (cells h)(a := AList.update k v (cells h a))\<rparr>"

text \<open>
  \<open>merge_credentials(config_creds, cli_creds)\<close>. \<open>merged_creds = config_creds\<close> binds a
  second name to the same object. \<open>cli_creds\<close> is \<open>None\<close> or a dictionary, only read. The
  store is returned also when a subscript of \<open>cli_creds\<close> raises, since the assignments
  before it have happened.
\<close>

definition merge_credentials :: "addr \<Rightarrow> creds option \<Rightarrow> heap \<Rightarrow> (error + addr) \<times> heap" where
  "merge_credentials config_creds cli_creds h =
     (let merged_creds = config_creds in
      case cli_creds of
        None \<Rightarrow> (Inr merged_creds, h)
      | Some cli \<Rightarrow>
          if cli = [] then (Inr merged_creds, h)
          else
            (case getitem cli ''username'' of
               Inl err \<Rightarrow> (Inl err, h)
             | Inr username \<Rightarrow>
                 let h1 = (if truthy username then setitem merged_creds ''app_id'' username h else h) in
                 (case getitem cli ''password'' of
                    Inl err \<Rightarrow> (Inl err, h1)
                  | Inr password \<Rightarrow>
                      let h2 = (if truthy password then setitem merged_creds ''api_key'' password h1 else h1) in
                      (case getitem cli ''key'' of
                         Inl err \<Rightarrow> (Inl err, h2)
                       | Inr key \<Rightarrow>
                           let h3 = (if truthy key then setitem merged_creds ''api_key'' key h2 else h2) in
                           (Inr merged_creds, h3)))))"

text \<open>
  The environment holds a reference to its credentials dictionary.
  \<open>AlgoliaPlugin.on_setup_env\<close> allocates a new dictionary and stores what
  \<open>config.get\<close> returns (\<open>None\<close> for a key the configuration file does not have) under
  both keys. The registration of the publisher class is not modelled.
\<close>

record env =
  algolia_credentials :: addr

definition on_setup_env :: "(string \<times> string) list \<Rightarrow> env \<Rightarrow> heap \<Rightarrow> env \<times> heap" where
  "on_setup_env config e h =
     (let a = fresh h;
          h0 = h\<lparr>cells := (cells h)(a := []), fresh := Suc a\<rparr>;
          e' = e\<lparr>algolia_credentials := a\<rparr>;
          h1 = setitem a ''app_id'' (map_of config ''app_id'') h0;
          h2 = setitem a ''api_key'' (map_of config ''api_key'') h1
      in (e', h2))"

section \<open>The content tree and the document extractor\<close>

text \<open>
  A field value is a \<open>Markdown\<close> object with its source text, or any other value of
  type \<open>'v\<close>; Python's \<open>str\<close> on those is a parameter \<open>str :: 'v \<Rightarrow> string\<close> of the
  model. A content record has its \<open>_gid\<close>, its \<open>_path\<close>, the names of the fields its
  data model declares (\<open>model.to_json(pad, child)["fields"]\<close>, each field represented by
  its \<open>name\<close> entry, the only one read), its field access \<open>child[field_name]\<close> (\<open>None\<close>
  where Python raises \<open>KeyError\<close>) and its children in the order \<open>children.all()\<close>
  yields them.
\<close>

datatype 'v field_value = Markdown (source: string) | Other 'v

datatype 'v node =
  Node (gid: string) (path: string) (declared_fields: "string list")
       (field_data: "string \<Rightarrow> 'v field_value option") (children: "'v node list")

type_synonym document = "(string \<times> string) list"

definition is_indexable :: "'v node \<Rightarrow> bool" where
  "is_indexable r = True"

text \<open>\<open>name[0]\<close> raises \<open>IndexError\<close> on the empty string.\<close>

definition is_public_field :: "string \<Rightarrow> error + bool" where
  "is_public_field name =
     (case name of
        [] \<Rightarrow> Inl IndexError
      | c # _ \<Rightarrow> Inr (c \<noteq> CHR ''_'' \<and> name \<noteq> ''indexed''))"

fun public_field_names :: "string list \<Rightarrow> error + string list" where
  "public_field_names [] = Inr []"
| "public_field_names (field # model_fields) =
     (case is_public_field field of
        Inl err \<Rightarrow> Inl err
      | Inr keep \<Rightarrow>
          (case public_field_names model_fields of
             Inl err \<Rightarrow> Inl err
           | Inr names \<Rightarrow> Inr (if keep then field # names else names)))"

definition stringify :: "('v \<Rightarrow> string) \<Rightarrow> 'v node \<Rightarrow> string \<Rightarrow> error + string" where
  "stringify str r field_name =
     (case field_data r field_name of
        None \<Rightarrow> Inl KeyError
      | Some (Markdown src) \<Rightarrow> Inr src
      | Some (Other v) \<Rightarrow> Inr (str v))"

text \<open>
  The dictionary comprehension of \<open>get_all_records\<close>, one entry after the other, and the
  body of its \<open>if is_indexable(child)\<close> branch, which builds \<open>child_data\<close>.
\<close>

fun field_dict :: "('v \<Rightarrow> string) \<Rightarrow> 'v node \<Rightarrow> string list \<Rightarrow> document \<Rightarrow> error + document" where
  "field_dict str child [] d = Inr d"
| "field_dict str child (field_name # names) d =
     (case stringify str child field_name of
        Inl err \<Rightarrow> Inl err
      | Inr s \<Rightarrow> field_dict str child names (AList.update field_name s d))"

definition child_data :: "('v \<Rightarrow> string) \<Rightarrow> 'v node \<Rightarrow> error + document" where
  "child_data str child =
     (case public_field_names (declared_fields child) of
        Inl err \<Rightarrow> Inl err
      | Inr model_field_names \<Rightarrow>
          (case field_dict str child model_field_names [] of
             Inl err \<Rightarrow> Inl err
           | Inr d \<Rightarrow>
               Inr (AList.update ''_path'' (path child)
                      (AList.update ''objectID'' (gid child) d))))"

text \<open>
  \<open>get_all_records(pad, record)\<close>: \<open>records_loop\<close> is its \<open>for child in ...\<close> loop, with
  the list \<open>records\<close> built so far.
\<close>

fun get_all_records :: "('v \<Rightarrow> string) \<Rightarrow> 'v node \<Rightarrow> error + document list"
  and records_loop :: "('v \<Rightarrow> string) \<Rightarrow> 'v node list \<Rightarrow> document list \<Rightarrow> error + document list"
where
  "get_all_records str (Node g p fs dt cs) = records_loop str cs []"
| "records_loop str [] records = Inr records"
| "records_loop str (child # rest) records =
     (case (if is_indexable child
            then (case child_data str child of
                    Inl err \<Rightarrow> Inl err
                  | Inr d \<Rightarrow> Inr (records @ [d]))
            else Inr records) of
        Inl err \<Rightarrow> Inl err
      | Inr records1 \<Rightarrow>
          (case get_all_records str child of
             Inl err \<Rightarrow> Inl err
           | Inr sub \<Rightarrow> records_loop str rest (records1 @ sub)))"

text \<open>
  \<open>list_local()\<close> discovers the project and extracts from the root of its pad; the root
  is the parameter here.
\<close>

definition list_local :: "('v \<Rightarrow> string) \<Rightarrow> 'v node \<Rightarrow> error + document list" where
  "list_local str root = get_all_records str root"

text \<open>
  The nodes of a content tree, for stating what the extractor covers: the proper
  descendants of a node in depth-first order, and the nodes reachable from it (the node
  itself and its descendants).
\<close>

fun descendants :: "'v node \<Rightarrow> 'v node list" where
  "descendants (Node g p fs dt cs) = concat (map (\<lambda>c. c # descendants c) cs)"

definition reachable :: "'v node \<Rightarrow> 'v node list" where
  "reachable root = root # descendants root"

section \<open>The remote search index\<close>

text \<open>
  The Algolia client is an external collaborator. What the publisher reads of its
  answers is a parameter of the model: whether \<open>init_index\<close> raises
  \<open>AlgoliaException\<close> for an index name, the response to the empty-query search for each
  page index (the first search names no page and is answered with page 0), and the
  responses to the two batched writes, of which only \<open>raw_responses\<close> is read. Every call
  the publisher makes and every message it yields is appended to a trace.
\<close>

record hit =
  objectID :: string

record search_page =
  hits :: "hit list"
  nbHits :: int
  nbPages :: int

type_synonym raw_response = nat

record indexing_response =
  raw_responses :: "raw_response list"

record remote =
  init_index_raises :: "string \<Rightarrow> bool"
  search :: "nat \<Rightarrow> search_page"
  delete_objects :: "string set \<Rightarrow> indexing_response"
  save_objects :: "document list \<Rightarrow> indexing_response"

datatype call =
    Create "string option" "string option"
  | Init_index string
  | Search "nat option"
  | Delete_objects "string set"
  | Save_objects "document list"
  | Close

datatype event = Call call | Yield string

record state =
  mem :: heap
  trace :: "event list"

definition emit :: "event \<Rightarrow> state \<Rightarrow> state" where
  "emit ev s = s\<lparr>trace := trace s @ [ev]\<rparr>"

text \<open>
  \<open>hit_object_ids(search_page)\<close> subscripts its argument with \<open>"hits"\<close>. The source calls
  it with a response dictionary (\<open>first_page\<close>) and with a list of hits
  (\<open>next_page["hits"]\<close>); a list subscripted with a \<open>str\<close> raises \<open>TypeError\<close>.
\<close>

datatype search_arg = Page search_page | Hits "hit list"

fun hit_object_ids :: "search_arg \<Rightarrow> error + string set" where
  "hit_object_ids (Page search_page) = Inr (objectID ` set (hits search_page))"
| "hit_object_ids (Hits hs) = Inl TypeError"

text \<open>
  \<open>list_remote_keys(index)\<close>: \<open>next_pages\<close> is the loop over \<open>range(1, page_count)\<close>,
  with the set \<open>all_object_ids\<close> built so far. The returned list has the elements of the
  set in no specified order, so the model returns the set.
\<close>

fun next_pages :: "remote \<Rightarrow> nat list \<Rightarrow> string set \<Rightarrow> state \<Rightarrow> (error + string set) \<times> state" where
  "next_pages rm [] all_object_ids s = (Inr all_object_ids, s)"
| "next_pages rm (i # is) all_object_ids s =
     (let next_page = search rm i;
          s1 = emit (Call (Search (Some i))) s
      in if nbHits next_page \<le> 0 then (Inr all_object_ids, s1)
         else
           (case hit_object_ids (Hits (hits next_page)) of
              Inl err \<Rightarrow> (Inl err, s1)
            | Inr next_page_hits \<Rightarrow> next_pages rm is (all_object_ids \<union> next_page_hits) s1))"

definition list_remote_keys :: "remote \<Rightarrow> state \<Rightarrow> (error + string set) \<times> state" where
  "list_remote_keys rm s =
     (let first_page = search rm 0;
          s1 = emit (Call (Search None)) s
      in case hit_object_ids (Page first_page) of
           Inl err \<Rightarrow> (Inl err, s1)
         | Inr first_page_hits \<Rightarrow>
             (let page_count = nbPages first_page
              in next_pages rm [1..<nat page_count] ({} \<union> first_page_hits) s1))"

section \<open>The publisher\<close>

definition config_message :: string where
  "config_message =
     ''Could not connect to Algolia. '' @
     ''Make sure api_key and app_id are present in your configs/algolia.ini file.''"

definition access_message :: "string \<Rightarrow> string" where
  "access_message index_name =
     ''Algolia index '' @ [CHR 0x22] @ index_name @ [CHR 0x22] @ '' does not exist, '' @
     ''or the API key provided does not have access to it. '' @
     ''Please create the index / verify your credentials on their website.''"

text \<open>
  \<open>AlgoliaPublisher.get_index\<close>. The index handle it returns is represented by the name
  of the index.
\<close>

definition get_index :: "remote \<Rightarrow> env \<Rightarrow> string \<Rightarrow> creds option \<Rightarrow> state \<Rightarrow> (error + string) \<times> state" where
  "get_index rm e index_name credentials s =
     (case merge_credentials (algolia_credentials e) credentials (mem s) of
        (Inl err, h) \<Rightarrow> (Inl err, s\<lparr>mem := h\<rparr>)
      | (Inr merged_creds, h) \<Rightarrow>
          let s1 = s\<lparr>mem := h\<rparr>;
              merged = cells h merged_creds
          in if ''app_id'' \<notin> fst ` set merged \<or> ''api_key'' \<notin> fst ` set merged
             then (Inl (PublishError config_message), s1)
             else
               (case getitem merged ''app_id'' of
                  Inl err \<Rightarrow> (Inl err, s1)
                | Inr app_id \<Rightarrow>
                    (case getitem merged ''api_key'' of
                       Inl err \<Rightarrow> (Inl err, s1)
                     | Inr api_key \<Rightarrow>
                         let s2 = emit (Call (Create app_id api_key)) s1;
                             s3 = emit (Call (Init_index index_name)) s2
                         in if init_index_raises rm index_name
                            then (Inl (PublishError (access_message index_name)), s3)
                            else (Inr index_name, s3))))"

text \<open>\<open>{record["objectID"] for record in local}\<close>.\<close>

fun local_keys :: "document list \<Rightarrow> error + string set" where
  "local_keys [] = Inr {}"
| "local_keys (r # rs) =
     (case getitem r ''objectID'' of
        Inl err \<Rightarrow> Inl err
      | Inr k \<Rightarrow>
          (case local_keys rs of
             Inl err \<Rightarrow> Inl err
           | Inr ks \<Rightarrow> Inr (insert k ks)))"

text \<open>
  \<open>AlgoliaPublisher.publish\<close>, run to the end of its generator: each \<open>yield\<close> appends
  its message to the trace, each call of the client appends the call. \<open>list_local()\<close>
  reads the project from disk; its content root is the parameter \<open>root\<close>.
\<close>

record url =
  netloc :: string

text \<open>The progress messages, with their counts formatted in.\<close>

definition found_local_message :: "nat \<Rightarrow> string" where
  "found_local_message n = ''Found '' @ decimal n @ '' local records to index.''"

definition found_remote_message :: "nat \<Rightarrow> string" where
  "found_remote_message n = ''Found '' @ decimal n @ '' existing remote records in the index.''"

definition computing_message :: string where
  "computing_message = ''Computing diff for index update...''"

definition deleted_message :: "nat \<Rightarrow> string" where
  "deleted_message delete_count =
     ''Deleted '' @ decimal delete_count @ '' stale records from remote index.''"

definition finished_message :: "nat \<Rightarrow> string" where
  "finished_message add_count =
     ''Finished submitting '' @ decimal add_count @ '' new/updated records to the index.''"

definition asynchronous_message :: string where
  "asynchronous_message =
     ''Processing the updated index is asynchronous, so Aloglia may take a '' @
     ''while to reflect the changes.''"

definition publish ::
  "('v \<Rightarrow> string) \<Rightarrow> remote \<Rightarrow> 'v node \<Rightarrow> env \<Rightarrow> url \<Rightarrow> creds option \<Rightarrow> state \<Rightarrow> (error + unit) \<times> state" where
  "publish str rm root e target_url credentials s =
     (let index_name = netloc target_url in
      case get_index rm e index_name credentials s of
        (Inl err, s1) \<Rightarrow> (Inl err, s1)
      | (Inr index, s1) \<Rightarrow>
          (case list_local str root of
             Inl err \<Rightarrow> (Inl err, s1)
           | Inr local_records \<Rightarrow>
               (case local_keys local_records of
                  Inl err \<Rightarrow> (Inl err, s1)
                | Inr lkeys \<Rightarrow>
                    let s2 = emit (Yield (found_local_message (length local_records))) s1
                    in (case list_remote_keys rm s2 of
                         (Inl err, s3) \<Rightarrow> (Inl err, s3)
                       | (Inr remote_keys, s3) \<Rightarrow>
                           let s4 = emit (Yield (found_remote_message (card remote_keys))) s3;
                               s5 = emit (Yield computing_message) s4;
                               keys_to_delete = remote_keys - lkeys;
                               s6 = emit (Call (Delete_objects keys_to_delete)) s5;
                               res_delete = delete_objects rm keys_to_delete;
                               delete_count = length (raw_responses res_delete);
                               s7 = emit (Yield (deleted_message delete_count)) s6;
                               s8 = emit (Call (Save_objects local_records)) s7;
                               res_add = save_objects rm local_records;
                               add_count = length (raw_responses res_add);
                               s9 = emit (Yield (finished_message add_count)) s8;
                               s10 = emit (Yield asynchronous_message) s9;
                               s11 = emit (Call Close) s10
                           in (Inr (), s11)))))"

section \<open>Notions for stating the properties\<close>

text \<open>
  \<open>collect\<close> gathers the results of a list of computations in order: the first error,
  or all the values.
\<close>

fun collect :: "(error + 'a) list \<Rightarrow> error + 'a list" where
  "collect [] = Inr []"
| "collect (Inl err # rs) = Inl err"
| "collect (Inr x # rs) = (case collect rs of Inl err \<Rightarrow> Inl err | Inr xs \<Rightarrow> Inr (x # xs))"

text \<open>
  A name starts with the reserved-prefix marker when its first character is an
  underscore; the string form of a field value is the source text of a markdown value
  and \<open>str\<close> of any other.
\<close>

definition starts_with_marker :: "string \<Rightarrow> bool" where
  "starts_with_marker name = (take 1 name = ''_'')"

definition string_form :: "('v \<Rightarrow> string) \<Rightarrow> 'v field_value \<Rightarrow> string" where
  "string_form str fv = (case fv of Markdown src \<Rightarrow> src | Other v \<Rightarrow> str v)"

text \<open>
  The identifiers on one response page, and the page indices a trace has searches for
  (the search without a page parameter asks for page 0).
\<close>

definition page_ids :: "remote \<Rightarrow> nat \<Rightarrow> string set" where
  "page_ids rm i = objectID ` set (hits (search rm i))"

fun fetched_page :: "event \<Rightarrow> nat list" where
  "fetched_page (Call (Search None)) = [0]"
| "fetched_page (Call (Search (Some i))) = [i]"
| "fetched_page ev = []"

definition fetched :: "event list \<Rightarrow> nat list" where
  "fetched tr = concat (map fetched_page tr)"

text \<open>
  The calls that write to the index, and the events of a run from its second count
  message on, given the local records, their keys and the remote keys.
\<close>

fun is_write :: "event \<Rightarrow> bool" where
  "is_write (Call (Delete_objects ks)) = True"
| "is_write (Call (Save_objects ds)) = True"
| "is_write ev = False"

definition completed_run ::
  "remote \<Rightarrow> document list \<Rightarrow> string set \<Rightarrow> string set \<Rightarrow> event list" where
  "completed_run rm local_records lkeys remote_keys =
     [Yield (found_remote_message (card remote_keys)),
      Yield computing_message,
      Call (Delete_objects (remote_keys - lkeys)),
      Yield (deleted_message (length (raw_responses (delete_objects rm (remote_keys - lkeys))))),
      Call (Save_objects local_records),
      Yield (finished_message (length (raw_responses (save_objects rm local_records)))),
      Yield asynchronous_message,
      Call Close]"



text \<open>
  Reading a decimal numeral back: the value of a digit character, and the number a
  string of digits denotes.
\<close>

definition digit_value :: "char \<Rightarrow> nat" where
  "digit_value c = of_char c - 48"


section \<open>Concrete inputs\<close>

text \<open>
  Content trees, with \<open>str\<close> of a field value that is a \<open>str\<close> already: a root without
  children, a site with one page, and a site with a page and a section holding an article
  whose data model declares a system field, the \<open>indexed\<close> flag and a markdown body.
\<close>

definition plain_str :: "string \<Rightarrow> string" where
  "plain_str v = v"

definition no_data :: "string \<Rightarrow> string field_value option" where
  "no_data k = None"

definition hello_data :: "string \<Rightarrow> string field_value option" where
  "hello_data k =
     (if k = ''title'' then Some (Other ''Hello'')
      else if k = ''body'' then Some (Markdown ''# Hello'')
      else if k = ''indexed'' then Some (Other ''True'')
      else if k = ''_hidden'' then Some (Other ''x'')
      else None)"

definition lone_root :: "string node" where
  "lone_root = Node ''g0'' ''/'' [] no_data []"

definition hello_page :: "string node" where
  "hello_page = Node ''x1'' ''/hello'' [''title''] hello_data []"

definition hello_site :: "string node" where
  "hello_site = Node ''g0'' ''/'' [] no_data [hello_page]"

definition article :: "string node" where
  "article = Node ''x2'' ''/blog/first'' [''title'', ''_hidden'', ''indexed'', ''body''] hello_data []"

definition blog_site :: "string node" where
  "blog_site = Node ''g0'' ''/'' [''title''] hello_data
     [hello_page, Node ''x3'' ''/blog'' [''title''] hello_data [article]]"

text \<open>
  Remote indexes. Each acknowledges a batched write with one raw response, and an empty
  one with none. \<open>one_page_remote\<close> holds \<open>x1\<close> on its only page; \<open>stale_remote\<close>
  holds \<open>x1\<close> and \<open>old\<close> on its only page; \<open>two_page_remote\<close> reports two pages with
  one hit each; \<open>drained_remote\<close> reports three pages, the second of them without hits.
\<close>

definition acknowledge :: "nat \<Rightarrow> indexing_response" where
  "acknowledge n = \<lparr>raw_responses = (if n = 0 then [] else [0])\<rparr>"

definition one_page_remote :: remote where
  "one_page_remote =
     \<lparr>init_index_raises = (\<lambda>name. False),
      search = (\<lambda>i. \<lparr>hits = (if i = 0 then [\<lparr>objectID = ''x1''\<rparr>] else []), nbHits = 1, nbPages = 1\<rparr>),
      delete_objects = (\<lambda>ks. acknowledge (card ks)),
      save_objects = (\<lambda>ds. acknowledge (length ds))\<rparr>"

definition stale_remote :: remote where
  "stale_remote =
     \<lparr>init_index_raises = (\<lambda>name. False),
      search = (\<lambda>i. \<lparr>hits = (if i = 0 then [\<lparr>objectID = ''x1''\<rparr>, \<lparr>objectID = ''old''\<rparr>] else []),
                      nbHits = 2, nbPages = 1\<rparr>),
      delete_objects = (\<lambda>ks. acknowledge (card ks)),
      save_objects = (\<lambda>ds. acknowledge (length ds))\<rparr>"

definition two_page_remote :: remote where
  "two_page_remote =
     \<lparr>init_index_raises = (\<lambda>name. False),
      search = (\<lambda>i. \<lparr>hits = (if i = 0 then [\<lparr>objectID = ''a''\<rparr>] else if i = 1 then [\<lparr>objectID = ''b''\<rparr>] else []),
                      nbHits = 2, nbPages = 2\<rparr>),
      delete_objects = (\<lambda>ks. acknowledge (card ks)),
      save_objects = (\<lambda>ds. acknowledge (length ds))\<rparr>"

definition drained_remote :: remote where
  "drained_remote =
     \<lparr>init_index_raises = (\<lambda>name. False),
      search = (\<lambda>i. if i = 0 then \<lparr>hits = [\<lparr>objectID = ''a''\<rparr>], nbHits = 1, nbPages = 3\<rparr>
                     else if i = 1 then \<lparr>hits = [], nbHits = 0, nbPages = 3\<rparr>
                     else \<lparr>hits = [\<lparr>objectID = ''c''\<rparr>], nbHits = 1, nbPages = 3\<rparr>),
      delete_objects = (\<lambda>ks. acknowledge (card ks)),
      save_objects = (\<lambda>ds. acknowledge (length ds))\<rparr>"

text \<open>
  The environment and the store after the plugin's setup with a configuration, two
  configurations, a deploy target, and the credentials a command line gives.
\<close>

definition initial_heap :: heap where
  "initial_heap = \<lparr>cells = (\<lambda>a. []), fresh = 0\<rparr>"

definition initial_env :: env where
  "initial_env = \<lparr>algolia_credentials = 0\<rparr>"

definition plugin_env :: "(string \<times> string) list \<Rightarrow> env" where
  "plugin_env config = fst (on_setup_env config initial_env initial_heap)"

definition plugin_state :: "(string \<times> string) list \<Rightarrow> state" where
  "plugin_state config = \<lparr>mem = snd (on_setup_env config initial_env initial_heap), trace = []\<rparr>"

definition full_config :: "(string \<times> string) list" where
  "full_config = [(''app_id'', ''APP''), (''api_key'', ''KEY'')]"

definition config_without_key :: "(string \<times> string) list" where
  "config_without_key = [(''app_id'', ''APP'')]"

definition articles_url :: url where
  "articles_url = \<lparr>netloc = ''articles''\<rparr>"

definition cli_override :: creds where
  "cli_override = [(''username'', Some ''CLI-APP''), (''password'', Some ''''), (''key'', Some ''CLI-KEY''),
                   (''key_file'', None)]"


definition shadow_data :: "string \<Rightarrow> string field_value option" where
  "shadow_data k = (if k = ''objectID'' then Some (Other ''declared-value'') else None)"

definition shadowed_page :: "string node" where
  "shadowed_page = Node ''x9'' ''/shadow'' [''objectID''] shadow_data []"

section \<open>Supporting lemmas\<close>

subsection \<open>The extractor\<close>

lemma collect_append:
  "collect (rs @ rs') =
     (case collect rs of
        Inl err \<Rightarrow> Inl err
      | Inr xs \<Rightarrow> (case collect rs' of Inl err \<Rightarrow> Inl err | Inr ys \<Rightarrow> Inr (xs @ ys)))"
proof (induction rs)
  case Nil
  show ?case by (simp split: sum.split)
next
  case (Cons r rs)
  then show ?case by (cases r) (simp_all split: sum.split)
qed

lemma collect_Inr_length: "collect rs = Inr xs \<Longrightarrow> length xs = length rs"
proof (induction rs arbitrary: xs)
  case Nil
  then show ?case by simp
next
  case (Cons r rs)
  then show ?case by (cases r) (auto split: sum.splits)
qed

lemma collect_Inr_map: "collect rs = Inr xs \<Longrightarrow> rs = map Inr xs"
proof (induction rs arbitrary: xs)
  case Nil
  then show ?case by simp
next
  case (Cons r rs)
  then show ?case by (cases r) (auto split: sum.splits)
qed

lemma extractor_refines:
  "get_all_records str root = collect (map (child_data str) (descendants root))"
  "records_loop str cs records =
     (case collect (map (child_data str) (concat (map (\<lambda>c. c # descendants c) cs))) of
        Inl err \<Rightarrow> Inl err
      | Inr ds \<Rightarrow> Inr (records @ ds))"
proof (induction str root and str cs records rule: get_all_records_records_loop.induct)
  case (1 str g p fs dt cs)
  then show ?case by (simp split: sum.split)
next
  case (2 str records)
  show ?case by simp
next
  case (3 str child rest records)
  show ?case
  proof (cases "child_data str child")
    case (Inl err)
    then show ?thesis by (simp add: is_indexable_def)
  next
    case (Inr d)
    note d = this
    show ?thesis
    proof (cases "collect (map (child_data str) (descendants child))")
      case (Inl err)
      with d 3 show ?thesis by (simp add: is_indexable_def collect_append)
    next
      case (Inr sub)
      note sub = this
      have g: "get_all_records str child = Inr sub"
        using 3(1) d sub by (simp add: is_indexable_def)
      have "records_loop str rest ((records @ [d]) @ sub) =
        (case collect (map (child_data str) (concat (map (\<lambda>c. c # descendants c) rest))) of
           Inl err \<Rightarrow> Inl err
         | Inr ds \<Rightarrow> Inr (((records @ [d]) @ sub) @ ds))"
        using 3(2) [of "records @ [d]" sub] d g by (simp add: is_indexable_def)
      then show ?thesis
        using d sub g by (simp add: is_indexable_def collect_append split: sum.split)
    qed
  qed
qed

lemma public_field_names_Inr:
  "public_field_names fs = Inr names \<Longrightarrow>
     [] \<notin> set fs \<and> names = filter (\<lambda>n. \<not> starts_with_marker n \<and> n \<noteq> ''indexed'') fs"
proof (induction fs arbitrary: names)
  case Nil
  then show ?case by simp
next
  case (Cons f fs)
  then show ?case
    by (cases f) (auto simp: is_public_field_def starts_with_marker_def split: sum.splits if_splits)
qed

lemma public_field_names_total:
  "[] \<notin> set fs \<Longrightarrow> \<exists>names. public_field_names fs = Inr names"
proof (induction fs)
  case Nil
  then show ?case by simp
next
  case (Cons f fs)
  then show ?case
    by (cases f) (auto simp: is_public_field_def split: sum.splits)
qed

lemma stringify_Inr:
  "stringify str r k = Inr s \<longleftrightarrow> (\<exists>fv. field_data r k = Some fv \<and> s = string_form str fv)"
  by (auto simp: stringify_def string_form_def split: option.splits field_value.splits)

lemma field_dict_Inr:
  "field_dict str child names d0 = Inr d \<Longrightarrow>
     map_of d k =
       (if k \<in> set names then map_option (string_form str) (field_data child k) else map_of d0 k)
     \<and> (\<forall>n \<in> set names. field_data child n \<noteq> None)"
proof (induction names arbitrary: d0)
  case Nil
  then show ?case by simp
next
  case (Cons n names)
  from Cons.prems obtain s where s: "stringify str child n = Inr s"
    and rest: "field_dict str child names (AList.update n s d0) = Inr d"
    by (auto split: sum.splits)
  from s obtain fv where fv: "field_data child n = Some fv" "s = string_form str fv"
    by (auto simp: stringify_Inr)
  from Cons.IH [OF rest] fv show ?case
    by (auto simp: update_conv')
qed

lemma field_dict_total:
  "\<forall>n \<in> set names. field_data child n \<noteq> None \<Longrightarrow> \<exists>d. field_dict str child names d0 = Inr d"
proof (induction names arbitrary: d0)
  case Nil
  then show ?case by simp
next
  case (Cons n names)
  then obtain fv where "field_data child n = Some fv" by auto
  then have "stringify str child n = Inr (string_form str fv)"
    by (simp add: stringify_Inr)
  with Cons show ?case by simp
qed

lemma child_data_Inr:
  assumes "child_data str child = Inr d"
  shows "map_of d ''objectID'' = Some (gid child)"
    and "map_of d ''_path'' = Some (path child)"
    and "k \<noteq> ''objectID'' \<Longrightarrow> k \<noteq> ''_path'' \<Longrightarrow>
         map_of d k =
           (if k \<in> set (declared_fields child) \<and> \<not> starts_with_marker k \<and> k \<noteq> ''indexed''
            then map_option (string_form str) (field_data child k) else None)"
    and "[] \<notin> set (declared_fields child)"
    and "\<forall>n \<in> set (declared_fields child). \<not> starts_with_marker n \<and> n \<noteq> ''indexed'' \<longrightarrow> field_data child n \<noteq> None"
proof -
  from assms obtain names d1 where names: "public_field_names (declared_fields child) = Inr names"
    and d1: "field_dict str child names [] = Inr d1"
    and d: "d = AList.update ''_path'' (path child) (AList.update ''objectID'' (gid child) d1)"
    by (auto simp: child_data_def split: sum.splits)
  note pn = public_field_names_Inr [OF names]
  show "map_of d ''objectID'' = Some (gid child)" by (simp add: d update_conv')
  show "map_of d ''_path'' = Some (path child)" by (simp add: d update_conv')
  show "[] \<notin> set (declared_fields child)" using pn by simp
  show "\<forall>n \<in> set (declared_fields child). \<not> starts_with_marker n \<and> n \<noteq> ''indexed'' \<longrightarrow> field_data child n \<noteq> None"
    using field_dict_Inr [OF d1] pn by auto
  show "map_of d k =
           (if k \<in> set (declared_fields child) \<and> \<not> starts_with_marker k \<and> k \<noteq> ''indexed''
            then map_option (string_form str) (field_data child k) else None)"
    if "k \<noteq> ''objectID''" "k \<noteq> ''_path''"
    using field_dict_Inr [OF d1, of k] pn that by (auto simp: d update_conv')
qed

lemma child_data_total:
  assumes "[] \<notin> set (declared_fields child)"
    and "\<forall>n \<in> set (declared_fields child). \<not> starts_with_marker n \<and> n \<noteq> ''indexed'' \<longrightarrow> field_data child n \<noteq> None"
  shows "\<exists>d. child_data str child = Inr d"
proof -
  from public_field_names_total [OF assms(1)] obtain names
    where names: "public_field_names (declared_fields child) = Inr names" by blast
  from public_field_names_Inr [OF names] assms(2)
  have "\<forall>n \<in> set names. field_data child n \<noteq> None" by auto
  from field_dict_total [OF this] obtain d1 where "field_dict str child names [] = Inr d1"
    by blast
  with names show ?thesis by (simp add: child_data_def)
qed

subsection \<open>The enumerator\<close>

lemma next_pages_Cons:
  "next_pages rm (i # is) ids s =
     (if nbHits (search rm i) \<le> 0 then Inr ids else Inl TypeError,
      emit (Call (Search (Some i))) s)"
  by (simp add: Let_def)

lemma list_remote_keys_cases:
  "list_remote_keys rm s =
     (if nbPages (search rm 0) \<le> 1 then (Inr (objectID ` set (hits (search rm 0))), emit (Call (Search None)) s)
      else (if nbHits (search rm 1) \<le> 0 then Inr (objectID ` set (hits (search rm 0))) else Inl TypeError,
            emit (Call (Search (Some 1))) (emit (Call (Search None)) s)))"
proof (cases "nbPages (search rm 0) \<le> 1")
  case True
  then show ?thesis by (simp add: list_remote_keys_def)
next
  case False
  then have "[1..<nat (nbPages (search rm 0))] = 1 # [Suc 1..<nat (nbPages (search rm 0))]"
    by (simp add: upt_conv_Cons)
  with False show ?thesis
    by (simp add: list_remote_keys_def next_pages_Cons del: next_pages.simps)
qed

lemma list_remote_keys_result_state_free:
  "fst (list_remote_keys rm s) = fst (list_remote_keys rm s')"
  by (simp add: list_remote_keys_cases)

lemma list_remote_keys_trace:
  "\<exists>ps. trace (snd (list_remote_keys rm s)) = trace s @ map (\<lambda>p. Call (Search p)) ps"
proof (cases "nbPages (search rm 0) \<le> 1")
  case True
  then have "trace (snd (list_remote_keys rm s)) = trace s @ map (\<lambda>p. Call (Search p)) [None]"
    by (simp add: list_remote_keys_cases emit_def)
  then show ?thesis ..
next
  case False
  then have "trace (snd (list_remote_keys rm s)) = trace s @ map (\<lambda>p. Call (Search p)) [None, Some 1]"
    by (simp add: list_remote_keys_cases emit_def)
  then show ?thesis ..
qed

subsection \<open>The publisher\<close>

lemma merge_credentials_result:
  "fst (merge_credentials a cli h) = Inr r \<Longrightarrow> r = a"
  by (auto simp: merge_credentials_def Let_def split: option.splits sum.splits if_splits)


lemma get_index_Inr:
  assumes "get_index rm e idx cr s = (Inr index, s1)"
  shows "index = idx \<and> (\<exists>app_id api_key. trace s1 = trace s @ [Call (Create app_id api_key), Call (Init_index idx)])"
  using assms
  by (auto simp: get_index_def Let_def emit_def split: prod.splits sum.splits if_splits)

lemma get_index_Inl:
  assumes "get_index rm e idx cr s = (Inl err, s1)"
  shows "trace s1 = trace s \<or> (\<exists>app_id api_key. trace s1 = trace s @ [Call (Create app_id api_key), Call (Init_index idx)])"
  using assms
  by (auto simp: get_index_def Let_def emit_def split: prod.splits sum.splits if_splits)

lemma publish_Inr:
  assumes "publish str rm root e target_url cr s = (Inr (), s')"
  shows "\<exists>app_id api_key loc lk rk ps.
           list_local str root = Inr loc \<and> local_keys loc = Inr lk \<and>
           fst (list_remote_keys rm s) = Inr rk \<and>
           trace s' = trace s @ [Call (Create app_id api_key), Call (Init_index (netloc target_url)),
                                 Yield (found_local_message (length loc))]
                        @ map (\<lambda>p. Call (Search p)) ps @ completed_run rm loc lk rk"
proof -
  from assms obtain index s1 where gi: "get_index rm e (netloc target_url) cr s = (Inr index, s1)"
    by (auto simp: publish_def Let_def split: prod.splits sum.splits)
  from assms gi obtain loc where loc: "list_local str root = Inr loc"
    by (auto simp: publish_def Let_def split: prod.splits sum.splits)
  from assms gi loc obtain lk where lk: "local_keys loc = Inr lk"
    by (auto simp: publish_def Let_def split: prod.splits sum.splits)
  define s2 where "s2 = emit (Yield (found_local_message (length loc))) s1"
  from assms gi loc lk obtain rk s3 where rk: "list_remote_keys rm s2 = (Inr rk, s3)"
    by (auto simp: publish_def Let_def s2_def split: prod.splits sum.splits)
  from assms gi loc lk rk have s': "trace s' = trace s3 @ completed_run rm loc lk rk"
    by (auto simp: publish_def Let_def s2_def emit_def completed_run_def)
  from list_remote_keys_trace [of rm s2] rk obtain ps
    where ps: "trace s3 = trace s2 @ map (\<lambda>p. Call (Search p)) ps" by auto
  from get_index_Inr [OF gi] obtain app_id api_key
    where s1: "trace s1 = trace s @ [Call (Create app_id api_key), Call (Init_index (netloc target_url))]"
    by blast
  have "fst (list_remote_keys rm s) = Inr rk"
    using rk list_remote_keys_result_state_free [of rm s s2] by simp
  with loc lk s' ps s1 show ?thesis
    by (auto simp: s2_def emit_def)
qed

lemma searches_no_write: "filter is_write (map (\<lambda>p. Call (Search p)) ps) = []"
  by (induction ps) simp_all

lemma publish_Inl:
  assumes "publish str rm root e target_url cr s = (Inl err, s')"
  shows "\<exists>evs. trace s' = trace s @ evs \<and> filter is_write evs = []"
proof (cases "get_index rm e (netloc target_url) cr s")
  case (Pair r s1)
  show ?thesis
  proof (cases r)
    case (Inl err1)
    with Pair assms have "s' = s1" by (simp add: publish_def)
    with get_index_Inl [of rm e "netloc target_url" cr s err1 s1] Pair Inl
    show ?thesis by auto
  next
    case (Inr index)
    with Pair have gi: "get_index rm e (netloc target_url) cr s = (Inr index, s1)" by simp
    from get_index_Inr [OF gi] obtain app_id api_key
      where s1: "trace s1 = trace s @ [Call (Create app_id api_key), Call (Init_index (netloc target_url))]"
      by blast
    show ?thesis
    proof (cases "list_local str root")
      case (Inl err1)
      with gi assms have "s' = s1" by (simp add: publish_def)
      with s1 show ?thesis by simp
    next
      case (Inr loc)
      note loc = this
      show ?thesis
      proof (cases "local_keys loc")
        case (Inl err1)
        with gi loc assms have "s' = s1" by (simp add: publish_def)
        with s1 show ?thesis by simp
      next
        case (Inr lk)
        define s2 where "s2 = emit (Yield (found_local_message (length loc))) s1"
        obtain r3 s3 where rk: "list_remote_keys rm s2 = (r3, s3)" by (cases "list_remote_keys rm s2")
        from assms gi loc Inr rk have "s' = s3"
          by (cases r3) (simp_all add: publish_def Let_def s2_def)
        moreover from list_remote_keys_trace [of rm s2] rk obtain ps
          where "trace s3 = trace s2 @ map (\<lambda>p. Call (Search p)) ps" by auto
        ultimately have "trace s' = trace s @ ([Call (Create app_id api_key), Call (Init_index (netloc target_url)),
              Yield (found_local_message (length loc))] @ map (\<lambda>p. Call (Search p)) ps)"
          using s1 by (simp add: s2_def emit_def)
        moreover have "filter is_write ([Call (Create app_id api_key), Call (Init_index (netloc target_url)),
              Yield (found_local_message (length loc))] @ map (\<lambda>p. Call (Search p)) ps) = []"
          by (simp add: searches_no_write)
        ultimately show ?thesis by blast
      qed
    qed
  qed
qed

lemma local_keys_collect:
  "collect (map (child_data str) ns) = Inr ds \<Longrightarrow> local_keys ds = Inr (gid ` set ns)"
proof (induction ns arbitrary: ds)
  case Nil
  then show ?case by simp
next
  case (Cons n ns)
  from Cons.prems obtain d ds' where d: "child_data str n = Inr d"
    and ds': "collect (map (child_data str) ns) = Inr ds'" and ds: "ds = d # ds'"
    by (cases "child_data str n") (auto split: sum.splits)
  from child_data_Inr(1) [OF d] have "getitem d ''objectID'' = Inr (gid n)"
    by (simp add: getitem_def)
  with Cons.IH [OF ds'] ds show ?case by simp
qed

lemma local_keys_list_local:
  "list_local str root = Inr loc \<Longrightarrow> local_keys loc = Inr (gid ` set (descendants root))"
  by (simp add: list_local_def extractor_refines(1) local_keys_collect)

lemma publish_completes:
  assumes gi: "get_index rm e (netloc target_url) cr s = (Inr index, s1)"
    and loc: "list_local str root = Inr loc"
    and rk: "fst (list_remote_keys rm s) = Inr rk"
  shows "\<exists>s'. publish str rm root e target_url cr s = (Inr (), s')"
proof -
  define s2 where "s2 = emit (Yield (found_local_message (length loc))) s1"
  have "fst (list_remote_keys rm s2) = Inr rk"
    using rk list_remote_keys_result_state_free [of rm s s2] by simp
  then obtain s3 where "list_remote_keys rm s2 = (Inr rk, s3)"
    by (cases "list_remote_keys rm s2") simp
  with gi loc local_keys_list_local [OF loc] show ?thesis
    by (simp add: publish_def Let_def s2_def)
qed

lemma publish_writes:
  assumes "get_index rm e (netloc target_url) cr s = (Inr index, s1)"
    and "list_local str root = Inr loc"
    and "fst (list_remote_keys rm s) = Inr rk"
  shows "\<exists>lk s'. local_keys loc = Inr lk \<and>
           publish str rm root e target_url cr s = (Inr (), s') \<and>
           filter is_write (trace s') =
             filter is_write (trace s) @ [Call (Delete_objects (rk - lk)), Call (Save_objects loc)]"
proof -
  from publish_completes [OF assms] obtain s'
    where run: "publish str rm root e target_url cr s = (Inr (), s')" by blast
  from publish_Inr [OF run] assms obtain app_id api_key lk ps where lk: "local_keys loc = Inr lk"
    and tr: "trace s' = trace s @ [Call (Create app_id api_key), Call (Init_index (netloc target_url)),
                                 Yield (found_local_message (length loc))]
                        @ map (\<lambda>p. Call (Search p)) ps @ completed_run rm loc lk rk"
    by auto
  have "filter is_write (trace s') =
          filter is_write (trace s) @ [Call (Delete_objects (rk - lk)), Call (Save_objects loc)]"
    by (simp add: tr searches_no_write completed_run_def)
  with lk run show ?thesis by blast
qed


subsection \<open>Credentials and the store\<close>

lemma setitem_cells:
  "map_of (cells (setitem a k v h) b) x =
     (if b = a \<and> x = k then Some v else map_of (cells h b) x)"
  by (simp add: setitem_def update_conv')




lemma on_setup_env_keys:
  "''app_id'' \<in> fst ` set (cells (snd (on_setup_env config e h)) (algolia_credentials (fst (on_setup_env config e h))))"
  "''api_key'' \<in> fst ` set (cells (snd (on_setup_env config e h)) (algolia_credentials (fst (on_setup_env config e h))))"
  by (simp_all add: on_setup_env_def Let_def setitem_def dom_update)

lemma setitem_keys: "k \<in> fst ` set (cells h a) \<Longrightarrow> k \<in> fst ` set (cells (setitem b k' v h) a)"
  by (cases "a = b") (simp_all add: setitem_def dom_update)

lemma merge_credentials_keeps_keys:
  "k \<in> fst ` set (cells h a) \<Longrightarrow> k \<in> fst ` set (cells (snd (merge_credentials a cli h)) a)"
  by (auto simp: merge_credentials_def Let_def intro!: setitem_keys split: option.splits sum.splits)

lemma get_index_after_setup:
  "fst (get_index rm (fst (on_setup_env config e h)) index_name cli
          \<lparr>mem = snd (on_setup_env config e h), trace = tr\<rparr>) \<noteq> Inl (PublishError config_message)"
proof -
  let ?e = "fst (on_setup_env config e h)" and ?h = "snd (on_setup_env config e h)"
  obtain r h' where m: "merge_credentials (algolia_credentials ?e) cli ?h = (r, h')"
    by (cases "merge_credentials (algolia_credentials ?e) cli ?h")
  from merge_credentials_keeps_keys [OF on_setup_env_keys(1), of config e h cli] m
  have k1: "''app_id'' \<in> fst ` set (cells h' (algolia_credentials ?e))" by simp
  from merge_credentials_keeps_keys [OF on_setup_env_keys(2), of config e h cli] m
  have k2: "''api_key'' \<in> fst ` set (cells h' (algolia_credentials ?e))" by simp
  show ?thesis
  proof (cases r)
    case (Inl err)
    with m have "err = KeyError"
      by (auto simp: merge_credentials_def Let_def getitem_def split: option.splits sum.splits if_splits)
    with m Inl show ?thesis by (simp add: get_index_def)
  next
    case (Inr a)
    with m merge_credentials_result [of "algolia_credentials ?e" cli ?h a]
    have "a = algolia_credentials ?e" by simp
    with m Inr k1 k2 show ?thesis
      by (auto simp: get_index_def Let_def access_message_def config_message_def getitem_def
          split: sum.splits option.splits)
  qed
qed

lemma get_index_guard:
  assumes "''app_id'' \<notin> fst ` set (cells (mem s) (algolia_credentials e)) \<or>
           ''api_key'' \<notin> fst ` set (cells (mem s) (algolia_credentials e))"
  shows "get_index rm e index_name None s = (Inl (PublishError config_message), s)"
  using assms by (auto simp: get_index_def merge_credentials_def)

subsection \<open>The enumerator on more than one page\<close>

lemma list_remote_keys_Inr_first_page:
  "fst (list_remote_keys rm s) = Inr ids \<Longrightarrow> ids = page_ids rm 0"
  by (auto simp: list_remote_keys_cases page_ids_def split: if_splits)

lemma list_remote_keys_raises:
  "1 < nbPages (search rm 0) \<Longrightarrow> 0 < nbHits (search rm 1) \<Longrightarrow>
     fst (list_remote_keys rm s) = Inl TypeError"
  by (simp add: list_remote_keys_cases)

subsection \<open>The extractor on a list of nodes\<close>

lemma child_data_gid:
  "collect (map (child_data str) ns) = Inr ds \<Longrightarrow>
     map (\<lambda>d. map_of d ''objectID'') ds = map (\<lambda>n. Some (gid n)) ns"
proof (induction ns arbitrary: ds)
  case Nil
  then show ?case by simp
next
  case (Cons n ns)
  from Cons.prems obtain d ds' where d: "child_data str n = Inr d"
    and ds': "collect (map (child_data str) ns) = Inr ds'" and ds: "ds = d # ds'"
    by (cases "child_data str n") (auto split: sum.splits)
  from child_data_Inr(1) [OF d] Cons.IH [OF ds'] ds show ?case by simp
qed

lemma collect_total:
  "\<forall>r \<in> set rs. \<exists>x. r = Inr x \<Longrightarrow> \<exists>xs. collect rs = Inr xs"
proof (induction rs)
  case Nil
  then show ?case by simp
next
  case (Cons r rs)
  then show ?case by (cases r) auto
qed

subsection \<open>The concrete inputs\<close>

lemma plugin_full:
  "plugin_env full_config = \<lparr>algolia_credentials = 0\<rparr>"
  "plugin_state full_config = \<lparr>mem = \<lparr>cells = (\<lambda>a. [])(0 := [(''app_id'', Some ''APP''), (''api_key'', Some ''KEY'')]), fresh = Suc 0\<rparr>, trace = []\<rparr>"
  by (simp_all add: plugin_env_def plugin_state_def on_setup_env_def initial_env_def initial_heap_def
       full_config_def setitem_def Let_def)


lemma list_local_hello:
  "list_local plain_str hello_site =
     Inr [[(''title'', ''Hello''), (''objectID'', ''x1''), (''_path'', ''/hello'')]]"
  by (simp add: list_local_def hello_site_def hello_page_def child_data_def is_indexable_def
      is_public_field_def stringify_def hello_data_def plain_str_def)

lemma remote_keys_one_page:
  "fst (list_remote_keys one_page_remote s) = Inr {''x1''}"
  by (simp add: list_remote_keys_cases one_page_remote_def)

lemma blog_descendants:
  "descendants blog_site = [hello_page, Node ''x3'' ''/blog'' [''title''] hello_data [article], article]"
  by (simp add: blog_site_def hello_page_def article_def)

lemma get_index_stale:
  "get_index stale_remote (plugin_env full_config) (netloc articles_url) None (plugin_state full_config) =
     (Inr ''articles'', \<lparr>mem = mem (plugin_state full_config),
        trace = [Call (Create (Some ''APP'') (Some ''KEY'')), Call (Init_index ''articles'')]\<rparr>)"
  by (simp add: plugin_full get_index_def merge_credentials_def getitem_def emit_def stale_remote_def
      articles_url_def)

lemma stale_run:
  "\<exists>s'. publish plain_str stale_remote hello_site (plugin_env full_config) articles_url None
           (plugin_state full_config) = (Inr (), s') \<and>
         filter is_write (trace s') =
           [Call (Delete_objects {''old''}),
            Call (Save_objects [[(''title'', ''Hello''), (''objectID'', ''x1''), (''_path'', ''/hello'')]])]"
proof -
  have rk: "fst (list_remote_keys stale_remote (plugin_state full_config)) = Inr {''x1'', ''old''}"
    by (simp add: list_remote_keys_cases stale_remote_def)
  from publish_writes [OF get_index_stale list_local_hello rk]
  obtain lk s' where lk: "local_keys [[(''title'', ''Hello''), (''objectID'', ''x1''), (''_path'', ''/hello'')]] = Inr lk"
    and run: "publish plain_str stale_remote hello_site (plugin_env full_config) articles_url None
           (plugin_state full_config) = (Inr (), s')"
    and w: "filter is_write (trace s') =
             filter is_write (trace (plugin_state full_config)) @
               [Call (Delete_objects ({''x1'', ''old''} - lk)),
                Call (Save_objects [[(''title'', ''Hello''), (''objectID'', ''x1''), (''_path'', ''/hello'')]])]"
    by blast
  from lk have lk': "lk = {''x1''}" by (simp add: getitem_def)
  have "{''x1'', ''old''} - {''x1''} = {''old''}" by auto
  with w lk' have "filter is_write (trace s') =
           [Call (Delete_objects {''old''}),
            Call (Save_objects [[(''title'', ''Hello''), (''objectID'', ''x1''), (''_path'', ''/hello'')]])]"
    by (simp add: plugin_state_def)
  with run show ?thesis by blast
qed

subsection \<open>Decimal numerals\<close>

lemma digit_value_digit_char: "d < 10 \<Longrightarrow> digit_value (digit_char d) = d"
proof -
  assume "d < 10"
  then have "d \<in> set [0..<10]" by simp
  also have "[0..<10] = [0, 1, 2, 3, 4, 5, 6, 7, 8, 9 :: nat]" by code_simp
  finally have "d = 0 \<or> d = 1 \<or> d = 2 \<or> d = 3 \<or> d = 4 \<or> d = 5 \<or> d = 6 \<or> d = 7 \<or> d = 8 \<or> d = 9"
    by simp
  then show ?thesis
    by (elim disjE) (simp_all add: digit_char_def digit_value_def)
qed



lemma decimal_not_Nil: "decimal n \<noteq> []"
  by (subst decimal.simps) simp

lemma digit_char_digit: "d < 10 \<Longrightarrow> digit_char d \<in> set ''0123456789''"
proof -
  assume "d < 10"
  then have "d < length ''0123456789''" by simp
  then show ?thesis unfolding digit_char_def by (rule nth_mem)
qed

lemma digit_char_zero: "d < 10 \<Longrightarrow> digit_char d = CHR ''0'' \<longleftrightarrow> d = 0"
proof -
  assume "d < 10"
  then have "digit_value (digit_char d) = d" by (rule digit_value_digit_char)
  moreover have "digit_value CHR ''0'' = 0" by (simp add: digit_value_def)
  moreover have "digit_char 0 = CHR ''0''" by (simp add: digit_char_def)
  ultimately show ?thesis by metis
qed

lemma decimal_canonical:
  "set (decimal n) \<subseteq> set ''0123456789'' \<and> (n \<noteq> 0 \<longrightarrow> hd (decimal n) \<noteq> CHR ''0'')"
proof (induction n rule: decimal.induct)
  case (1 n)
  show ?case
  proof (cases "n < 10")
    case True
    then show ?thesis
      using digit_char_digit [of n] digit_char_zero [of n]
      by (simp add: decimal.simps [of n])
  next
    case False
    with 1 have IH: "set (decimal (n div 10)) \<subseteq> set ''0123456789''"
      "n div 10 \<noteq> 0 \<longrightarrow> hd (decimal (n div 10)) \<noteq> CHR ''0''" by simp_all
    from False have "n div 10 \<noteq> 0" by simp
    with IH False show ?thesis
      using digit_char_digit [of "n mod 10"] decimal_not_Nil [of "n div 10"]
      by (simp add: decimal.simps [of n])
  qed
qed


subsection \<open>More concrete runs\<close>





section \<open>The properties\<close>

subsection \<open>Remote key enumeration\<close>

text \<open>
  C1. The claim: for every sequence of result pages the enumerator returns the union of
  the identifiers on all the pages it fetched. The code does not: \<open>list_remote_keys\<close>
  passes \<open>next_page["hits"]\<close>, a list, to \<open>hit_object_ids\<close>, which subscripts it with
  \<open>"hits"\<close>. On a remote that reports two pages with one hit each, the second search is
  made and the call raises \<open>TypeError\<close>, where the claim has the result \<open>{a, b}\<close>.
\<close>

theorem list_remote_keys_second_page_raises:
  "list_remote_keys two_page_remote \<lparr>mem = initial_heap, trace = []\<rparr> =
     (Inl TypeError, \<lparr>mem = initial_heap, trace = [Call (Search None), Call (Search (Some 1))]\<rparr>) \<and>
   page_ids two_page_remote 0 \<union> page_ids two_page_remote 1 = {''a'', ''b''}"
  by (auto simp: list_remote_keys_cases two_page_remote_def emit_def page_ids_def)

text \<open>
  C6. If a page with index \<open>k \<ge> 1\<close> reports no hits, no page after it is requested; and
  when page \<open>k\<close> is requested, it is the last request and the enumerator returns the
  identifiers of the pages before it, nothing more.
\<close>

theorem list_remote_keys_stops_at_empty_page:
  assumes "1 \<le> k" and "nbHits (search rm k) \<le> 0"
  shows "(\<forall>j \<in> set (fetched (trace (snd (list_remote_keys rm \<lparr>mem = h, trace = []\<rparr>)))). j \<le> k) \<and>
         (k \<in> set (fetched (trace (snd (list_remote_keys rm \<lparr>mem = h, trace = []\<rparr>)))) \<longrightarrow>
            last (fetched (trace (snd (list_remote_keys rm \<lparr>mem = h, trace = []\<rparr>)))) = k \<and>
            fst (list_remote_keys rm \<lparr>mem = h, trace = []\<rparr>) = Inr (\<Union>j<k. page_ids rm j))"
  using assms
  by (auto simp: list_remote_keys_cases fetched_def emit_def page_ids_def lessThan_Suc)

text \<open>
  On a remote that reports three pages and whose page 1 has no hits, pages 0 and 1 are
  requested and page 2, which has a hit, is not.
\<close>

theorem list_remote_keys_stops_at_empty_page_witness:
  "nbPages (search drained_remote 0) = 3 \<and>
   fetched (trace (snd (list_remote_keys drained_remote \<lparr>mem = initial_heap, trace = []\<rparr>))) = [0, 1] \<and>
   fst (list_remote_keys drained_remote \<lparr>mem = initial_heap, trace = []\<rparr>) = Inr {''a''}"
proof -
  have k: "(1::nat) \<le> 1" "nbHits (search drained_remote 1) \<le> 0"
    by (simp_all add: drained_remote_def)
  have f: "fetched (trace (snd (list_remote_keys drained_remote \<lparr>mem = initial_heap, trace = []\<rparr>))) = [0, 1]"
    by (simp add: list_remote_keys_cases drained_remote_def fetched_def emit_def)
  from list_remote_keys_stops_at_empty_page [OF k, of initial_heap] f
  have "fst (list_remote_keys drained_remote \<lparr>mem = initial_heap, trace = []\<rparr>) = Inr (\<Union>j<1. page_ids drained_remote j)"
    by simp
  moreover have "(\<Union>j<(1::nat). page_ids drained_remote j) = {''a''}"
    by (simp add: page_ids_def drained_remote_def lessThan_Suc)
  moreover have "nbPages (search drained_remote 0) = 3" by (simp add: drained_remote_def)
  ultimately show ?thesis using f by simp
qed

subsection \<open>Document extraction\<close>

text \<open>
  C2, as the claim states it, fails: the extractor builds no record for the root, so its
  output count is not the number of nodes reachable from the root. For a root without
  children the output is empty, and one node is reachable.
\<close>

theorem extractor_skips_root:
  "get_all_records plain_str lone_root = Inr [] \<and> length (reachable lone_root) = 1"
  by (simp add: lone_root_def reachable_def)

text \<open>
  C2, amended. The extractor's result is the records of the root's proper descendants in
  depth-first order, or the first error among them. When it returns, there is one record
  for each descendant, carrying the descendant's identifier, and the count is the number
  of nodes reachable from the root minus one. It returns when no descendant declares a
  field with an empty name and every declared field of a descendant has data.
\<close>

theorem get_all_records_descendants:
  "get_all_records str root = collect (map (child_data str) (descendants root)) \<and>
   (\<forall>ds. get_all_records str root = Inr ds \<longrightarrow>
      length ds = length (reachable root) - 1 \<and>
      map (\<lambda>d. map_of d ''objectID'') ds = map (\<lambda>n. Some (gid n)) (descendants root)) \<and>
   ((\<forall>n \<in> set (descendants root).
       [] \<notin> set (declared_fields n) \<and> (\<forall>f \<in> set (declared_fields n). field_data n f \<noteq> None)) \<longrightarrow>
    (\<exists>ds. get_all_records str root = Inr ds))"
proof (intro conjI allI impI)
  show r: "get_all_records str root = collect (map (child_data str) (descendants root))"
    by (rule extractor_refines(1))
  show "length ds = length (reachable root) - 1" if "get_all_records str root = Inr ds" for ds
    using that collect_Inr_length [of "map (child_data str) (descendants root)" ds]
    by (simp add: r reachable_def)
  show "map (\<lambda>d. map_of d ''objectID'') ds = map (\<lambda>n. Some (gid n)) (descendants root)"
    if "get_all_records str root = Inr ds" for ds
    using that by (simp add: r child_data_gid)
  show "\<exists>ds. get_all_records str root = Inr ds"
    if wf: "\<forall>n \<in> set (descendants root).
       [] \<notin> set (declared_fields n) \<and> (\<forall>f \<in> set (declared_fields n). field_data n f \<noteq> None)"
  proof -
    have "\<forall>r \<in> set (map (child_data str) (descendants root)). \<exists>x. r = Inr x"
      using wf child_data_total [of _ str] by auto
    from collect_total [OF this] show ?thesis by (simp add: r)
  qed
qed

text \<open>
  A site of four nodes, with an article two levels below the root, gives three records.
\<close>

theorem get_all_records_descendants_witness:
  "length (reachable blog_site) = 4 \<and>
   (\<exists>ds. get_all_records plain_str blog_site = Inr ds \<and> length ds = 3 \<and>
      map (\<lambda>d. map_of d ''objectID'') ds = [Some ''x1'', Some ''x3'', Some ''x2''])"
proof -
  have wf: "\<forall>n \<in> set (descendants blog_site).
       [] \<notin> set (declared_fields n) \<and> (\<forall>f \<in> set (declared_fields n). field_data n f \<noteq> None)"
    by (simp add: blog_descendants hello_page_def article_def hello_data_def)
  have len: "length (reachable blog_site) = 4"
    by (simp add: reachable_def blog_descendants)
  from get_all_records_descendants [of plain_str blog_site] wf
  obtain ds where ds: "get_all_records plain_str blog_site = Inr ds" by blast
  with get_all_records_descendants [of plain_str blog_site]
  have "length ds = length (reachable blog_site) - 1"
    and "map (\<lambda>d. map_of d ''objectID'') ds = map (\<lambda>n. Some (gid n)) (descendants blog_site)"
    by blast+
  with len ds show ?thesis
    by (simp add: blog_descendants hello_page_def article_def)
qed

text \<open>
  C8, as the claim states it, fails for a declared field named \<open>objectID\<close>: the name
  passes the filter and its value is stringified, but the record's \<open>objectID\<close> entry is
  then overwritten with the node's \<open>_gid\<close>.
\<close>

theorem declared_objectID_overwritten:
  "''objectID'' \<in> set (declared_fields shadowed_page) \<and>
   \<not> starts_with_marker ''objectID'' \<and>
   field_data shadowed_page ''objectID'' = Some (Other ''declared-value'') \<and>
   stringify plain_str shadowed_page ''objectID'' = Inr ''declared-value'' \<and>
   child_data plain_str shadowed_page = Inr [(''objectID'', ''x9''), (''_path'', ''/shadow'')]"
  by (simp add: shadowed_page_def shadow_data_def starts_with_marker_def stringify_def
      plain_str_def child_data_def is_public_field_def)

text \<open>
  C8, amended. In the record extracted for a node, \<open>objectID\<close> is the node's \<open>_gid\<close> and
  \<open>_path\<close> its path; every other key is a declared field whose name does not start with
  the marker and is not \<open>indexed\<close>, each such field is a key, and its entry is the string
  form of the field's value: the source text of a markdown value, \<open>str\<close> of any other.
  A record is extracted when no declared field has an empty name and every declared
  field has data.
\<close>

theorem child_data_public_fields:
  "(\<forall>d. child_data str child = Inr d \<longrightarrow>
      (\<forall>k. if k = ''objectID'' then map_of d k = Some (gid child)
           else if k = ''_path'' then map_of d k = Some (path child)
           else if k \<in> set (declared_fields child) \<and> \<not> starts_with_marker k \<and> k \<noteq> ''indexed''
           then \<exists>fv. field_data child k = Some fv \<and> map_of d k = Some (string_form str fv)
           else map_of d k = None)) \<and>
   ([] \<notin> set (declared_fields child) \<and> (\<forall>f \<in> set (declared_fields child). field_data child f \<noteq> None) \<longrightarrow>
      (\<exists>d. child_data str child = Inr d))"
proof (intro conjI allI impI)
  fix d k
  assume d: "child_data str child = Inr d"
  show "if k = ''objectID'' then map_of d k = Some (gid child)
           else if k = ''_path'' then map_of d k = Some (path child)
           else if k \<in> set (declared_fields child) \<and> \<not> starts_with_marker k \<and> k \<noteq> ''indexed''
           then \<exists>fv. field_data child k = Some fv \<and> map_of d k = Some (string_form str fv)
           else map_of d k = None"
    using child_data_Inr(1,2) [OF d] child_data_Inr(3) [OF d, of k] child_data_Inr(5) [OF d]
    by auto
next
  assume "[] \<notin> set (declared_fields child) \<and> (\<forall>f \<in> set (declared_fields child). field_data child f \<noteq> None)"
  then show "\<exists>d. child_data str child = Inr d"
    using child_data_total [of child str] by auto
qed

text \<open>
  An article declaring \<open>title\<close>, \<open>_hidden\<close>, \<open>indexed\<close> and a markdown \<open>body\<close> gives a
  record with \<open>title\<close> and the source of \<open>body\<close>, without the other two; the page
  declaring \<open>objectID\<close> gives a record whose \<open>objectID\<close> is its \<open>_gid\<close>.
\<close>

theorem child_data_public_fields_witness:
  "declared_fields article = [''title'', ''_hidden'', ''indexed'', ''body''] \<and>
   (\<exists>d. child_data plain_str article = Inr d \<and>
      map_of d ''title'' = Some ''Hello'' \<and> map_of d ''body'' = Some ''# Hello'' \<and>
      map_of d ''_hidden'' = None \<and> map_of d ''indexed'' = None \<and>
      map_of d ''objectID'' = Some ''x2'' \<and> map_of d ''_path'' = Some ''/blog/first'') \<and>
   declared_fields shadowed_page = [''objectID''] \<and>
   (\<exists>d. child_data plain_str shadowed_page = Inr d \<and> map_of d ''objectID'' = Some ''x9'')"
proof -
  have wf: "[] \<notin> set (declared_fields article) \<and> (\<forall>f \<in> set (declared_fields article). field_data article f \<noteq> None)"
    by (simp add: article_def hello_data_def)
  note t = child_data_public_fields [of plain_str article]
  from t wf obtain d where d: "child_data plain_str article = Inr d" by blast
  from t d have pub: "\<And>k. if k = ''objectID'' then map_of d k = Some (gid article)
           else if k = ''_path'' then map_of d k = Some (path article)
           else if k \<in> set (declared_fields article) \<and> \<not> starts_with_marker k \<and> k \<noteq> ''indexed''
           then \<exists>fv. field_data article k = Some fv \<and> map_of d k = Some (string_form plain_str fv)
           else map_of d k = None"
    by blast
  from pub [of "''title''"] have "map_of d ''title'' = Some ''Hello''"
    by (auto simp: article_def hello_data_def starts_with_marker_def string_form_def plain_str_def)
  moreover from pub [of "''body''"] have "map_of d ''body'' = Some ''# Hello''"
    by (auto simp: article_def hello_data_def starts_with_marker_def string_form_def plain_str_def)
  moreover from pub [of "''_hidden''"] have "map_of d ''_hidden'' = None"
    by (auto simp: article_def hello_data_def starts_with_marker_def)
  moreover from pub [of "''indexed''"] have "map_of d ''indexed'' = None"
    by (auto simp: article_def hello_data_def starts_with_marker_def)
  moreover from pub [of "''objectID''"] have "map_of d ''objectID'' = Some ''x2''"
    by (simp add: article_def)
  moreover from pub [of "''_path''"] have "map_of d ''_path'' = Some ''/blog/first''"
    by (simp add: article_def)
  moreover have "declared_fields article = [''title'', ''_hidden'', ''indexed'', ''body'']"
    by (simp add: article_def)
  ultimately have a: "declared_fields article = [''title'', ''_hidden'', ''indexed'', ''body''] \<and>
   (\<exists>d. child_data plain_str article = Inr d \<and>
      map_of d ''title'' = Some ''Hello'' \<and> map_of d ''body'' = Some ''# Hello'' \<and>
      map_of d ''_hidden'' = None \<and> map_of d ''indexed'' = None \<and>
      map_of d ''objectID'' = Some ''x2'' \<and> map_of d ''_path'' = Some ''/blog/first'')"
    using d by blast
  have wf': "[] \<notin> set (declared_fields shadowed_page) \<and>
      (\<forall>f \<in> set (declared_fields shadowed_page). field_data shadowed_page f \<noteq> None)"
    by (simp add: shadowed_page_def shadow_data_def)
  note t' = child_data_public_fields [of plain_str shadowed_page]
  from t' wf' obtain d' where d': "child_data plain_str shadowed_page = Inr d'" by blast
  from t' d' have "if ''objectID'' = ''objectID'' then map_of d' ''objectID'' = Some (gid shadowed_page)
           else undefined"
    by (auto dest: spec [of _ "''objectID''"])
  then have "map_of d' ''objectID'' = Some ''x9''" by (simp add: shadowed_page_def)
  with d' have b: "\<exists>d. child_data plain_str shadowed_page = Inr d \<and> map_of d ''objectID'' = Some ''x9''"
    by blast
  have "declared_fields shadowed_page = [''objectID'']" by (simp add: shadowed_page_def)
  with a b show ?thesis by blast
qed

subsection \<open>The run\<close>





text \<open>
  C7. Whatever a run returns, the events it adds to the trace either hold no write to
  the index, or end with the delete request, the message that reports the answer to it,
  the save request, the message that reports the answer to that, the closing notice and
  the closing of the client, with no write before the delete request.
\<close>

theorem publish_delete_before_save:
  assumes "publish str rm root e target_url cr s = (r, s')"
  shows "\<exists>evs. trace s' = trace s @ evs \<and>
           (filter is_write evs = [] \<or>
            (\<exists>pre ks ds.
               evs = pre @
                 [Call (Delete_objects ks),
                  Yield (deleted_message (length (raw_responses (delete_objects rm ks)))),
                  Call (Save_objects ds),
                  Yield (finished_message (length (raw_responses (save_objects rm ds)))),
                  Yield asynchronous_message,
                  Call Close] \<and>
               filter is_write pre = []))"
proof (cases r)
  case (Inl err)
  with assms publish_Inl [of str rm root e target_url cr s err s'] show ?thesis by auto
next
  case (Inr u)
  with assms have "publish str rm root e target_url cr s = (Inr (), s')" by simp
  from publish_Inr [OF this] obtain app_id api_key loc lk rk ps where
    tr: "trace s' = trace s @ [Call (Create app_id api_key), Call (Init_index (netloc target_url)),
                                 Yield (found_local_message (length loc))]
                        @ map (\<lambda>p. Call (Search p)) ps @ completed_run rm loc lk rk"
    by blast
  define pre where "pre = [Call (Create app_id api_key), Call (Init_index (netloc target_url)),
                                 Yield (found_local_message (length loc))]
                        @ map (\<lambda>p. Call (Search p)) ps @ [Yield (found_remote_message (card rk)),
      Yield computing_message]"
  have "trace s' = trace s @ (pre @ [Call (Delete_objects (rk - lk)),
      Yield (deleted_message (length (raw_responses (delete_objects rm (rk - lk))))),
      Call (Save_objects loc),
      Yield (finished_message (length (raw_responses (save_objects rm loc)))),
      Yield asynchronous_message,
      Call Close])"
    by (simp add: tr pre_def completed_run_def)
  moreover have "filter is_write pre = []"
    by (simp add: pre_def searches_no_write)
  ultimately show ?thesis by blast
qed

text \<open>
  The run that deletes \<open>old\<close> and saves \<open>x1\<close> has this shape: the delete request, its
  one acknowledgement reported, then the save request.
\<close>

theorem publish_delete_before_save_witness:
  "\<exists>s' pre.
     publish plain_str stale_remote hello_site (plugin_env full_config) articles_url None
           (plugin_state full_config) = (Inr (), s') \<and>
     trace s' = pre @
       [Call (Delete_objects {''old''}),
        Yield ''Deleted 1 stale records from remote index.'',
        Call (Save_objects [[(''title'', ''Hello''), (''objectID'', ''x1''), (''_path'', ''/hello'')]]),
        Yield ''Finished submitting 1 new/updated records to the index.'',
        Yield asynchronous_message,
        Call Close] \<and>
     filter is_write pre = []"
proof -
  from stale_run obtain s' where
    run: "publish plain_str stale_remote hello_site (plugin_env full_config) articles_url None
           (plugin_state full_config) = (Inr (), s')"
    and w: "filter is_write (trace s') =
           [Call (Delete_objects {''old''}),
            Call (Save_objects [[(''title'', ''Hello''), (''objectID'', ''x1''), (''_path'', ''/hello'')]])]"
    by blast
  from publish_delete_before_save [OF run] obtain evs where
    evs: "trace s' = trace (plugin_state full_config) @ evs"
    and d: "filter is_write evs = [] \<or>
            (\<exists>pre ks ds.
               evs = pre @
                 [Call (Delete_objects ks),
                  Yield (deleted_message (length (raw_responses (delete_objects stale_remote ks)))),
                  Call (Save_objects ds),
                  Yield (finished_message (length (raw_responses (save_objects stale_remote ds)))),
                  Yield asynchronous_message,
                  Call Close] \<and>
               filter is_write pre = [])"
    by blast
  from evs have tr: "trace s' = evs" by (simp add: plugin_state_def)
  with w d obtain pre ks ds where
    e: "evs = pre @
                 [Call (Delete_objects ks),
                  Yield (deleted_message (length (raw_responses (delete_objects stale_remote ks)))),
                  Call (Save_objects ds),
                  Yield (finished_message (length (raw_responses (save_objects stale_remote ds)))),
                  Yield asynchronous_message,
                  Call Close]" and p: "filter is_write pre = []"
    by auto
  from w tr e p have ks: "ks = {''old''}"
    and ds: "ds = [[(''title'', ''Hello''), (''objectID'', ''x1''), (''_path'', ''/hello'')]]"
    by simp_all
  have d1: "decimal (Suc 0) = ''1''"
    by (simp add: decimal.simps digit_char_def)
  have "deleted_message (length (raw_responses (delete_objects stale_remote ks))) =
          ''Deleted 1 stale records from remote index.''"
    by (simp add: ks stale_remote_def acknowledge_def deleted_message_def d1)
  moreover have "finished_message (length (raw_responses (save_objects stale_remote ds))) =
          ''Finished submitting 1 new/updated records to the index.''"
    by (simp add: ds stale_remote_def acknowledge_def finished_message_def d1)
  ultimately show ?thesis using run tr e p ks ds by auto
qed

subsection \<open>Credentials\<close>

text \<open>
  C4. The claim: when the merged credentials lack \<open>app_id\<close> or \<open>api_key\<close>, the run
  raises its configuration error before any call to the remote collaborator. The code
  tests whether the keys are in the dictionary, and \<open>on_setup_env\<close> stores both keys
  always, with \<open>None\<close> for an entry the configuration does not have
  (\<open>get_index_after_setup\<close>: after the setup, \<open>get_index\<close> never raises that error).
  With a configuration that has no \<open>api_key\<close> and no command-line credentials,
  \<open>get_index\<close> creates the client with \<open>None\<close> as the key and returns the index, and
  the run goes on to its end.
\<close>

theorem missing_api_key_reaches_client:
  "map_of config_without_key ''api_key'' = None \<and>
   get_index one_page_remote (plugin_env config_without_key) ''articles'' None
       (plugin_state config_without_key) =
     (Inr ''articles'',
      \<lparr>mem = mem (plugin_state config_without_key),
         trace = [Call (Create (Some ''APP'') None), Call (Init_index ''articles'')]\<rparr>) \<and>
   fst (publish plain_str one_page_remote hello_site (plugin_env config_without_key) articles_url
          None (plugin_state config_without_key)) = Inr ()"
proof -
  have gi: "get_index one_page_remote (plugin_env config_without_key) ''articles'' None
       (plugin_state config_without_key) =
     (Inr ''articles'',
      \<lparr>mem = mem (plugin_state config_without_key),
         trace = [Call (Create (Some ''APP'') None), Call (Init_index ''articles'')]\<rparr>)"
    by (simp add: plugin_env_def plugin_state_def on_setup_env_def initial_env_def
        initial_heap_def config_without_key_def setitem_def Let_def get_index_def
        merge_credentials_def getitem_def emit_def one_page_remote_def)
  then have "get_index one_page_remote (plugin_env config_without_key) (netloc articles_url) None
       (plugin_state config_without_key) =
     (Inr ''articles'',
      \<lparr>mem = mem (plugin_state config_without_key),
         trace = [Call (Create (Some ''APP'') None), Call (Init_index ''articles'')]\<rparr>)"
    by (simp add: articles_url_def)
  from publish_completes [OF this list_local_hello remote_keys_one_page]
  have "fst (publish plain_str one_page_remote hello_site (plugin_env config_without_key)
          articles_url None (plugin_state config_without_key)) = Inr ()"
    by auto
  moreover have "map_of config_without_key ''api_key'' = None"
    by (simp add: config_without_key_def)
  ultimately show ?thesis using gi by simp
qed

text \<open>
  So the run does not end with the configuration error there, and it has called the
  client.
\<close>

theorem missing_api_key_reaches_client_witness:
  "fst (get_index one_page_remote (plugin_env config_without_key) ''articles'' None
          (plugin_state config_without_key)) \<noteq> Inl (PublishError config_message) \<and>
   Call (Create (Some ''APP'') None) \<in>
     set (trace (snd (get_index one_page_remote (plugin_env config_without_key) ''articles'' None
                        (plugin_state config_without_key))))"
  using missing_api_key_reaches_client by simp

text \<open>
  C9. Without command-line credentials, or with an empty dictionary of them, the merge
  changes nothing. With a dictionary that has the keys \<open>username\<close>, \<open>password\<close> and
  \<open>key\<close>, the merged \<open>app_id\<close> is the username when that is non-empty, and the
  configuration's entry otherwise; the merged \<open>api_key\<close> is the key when that is
  non-empty, else the password when that is non-empty, else the configuration's entry;
  every other entry is the configuration's.
\<close>

theorem merge_credentials_precedence:
  "merge_credentials a None h = (Inr a, h) \<and>
   merge_credentials a (Some []) h = (Inr a, h) \<and>
   (map_of cli ''username'' = Some u \<and> map_of cli ''password'' = Some p \<and> map_of cli ''key'' = Some k \<longrightarrow>
     (\<exists>h'. merge_credentials a (Some cli) h = (Inr a, h') \<and>
        map_of (cells h' a) ''app_id'' = (if truthy u then Some u else map_of (cells h a) ''app_id'') \<and>
        map_of (cells h' a) ''api_key'' =
          (if truthy k then Some k else if truthy p then Some p else map_of (cells h a) ''api_key'') \<and>
        (\<forall>x. x \<noteq> ''app_id'' \<and> x \<noteq> ''api_key'' \<longrightarrow> map_of (cells h' a) x = map_of (cells h a) x)))"
proof (intro conjI impI)
  show "merge_credentials a None h = (Inr a, h)" by (simp add: merge_credentials_def)
  show "merge_credentials a (Some []) h = (Inr a, h)" by (simp add: merge_credentials_def)
next
  assume keys: "map_of cli ''username'' = Some u \<and> map_of cli ''password'' = Some p \<and> map_of cli ''key'' = Some k"
  then have ne: "cli \<noteq> []" by auto
  define h1 where "h1 = (if truthy u then setitem a ''app_id'' u h else h)"
  define h2 where "h2 = (if truthy p then setitem a ''api_key'' p h1 else h1)"
  define h3 where "h3 = (if truthy k then setitem a ''api_key'' k h2 else h2)"
  have run: "merge_credentials a (Some cli) h = (Inr a, h3)"
    using keys ne by (simp add: merge_credentials_def getitem_def h1_def h2_def h3_def Let_def)
  have "map_of (cells h3 a) ''app_id'' = (if truthy u then Some u else map_of (cells h a) ''app_id'')"
    by (simp add: h1_def h2_def h3_def setitem_cells)
  moreover have "map_of (cells h3 a) ''api_key'' =
          (if truthy k then Some k else if truthy p then Some p else map_of (cells h a) ''api_key'')"
    by (simp add: h1_def h2_def h3_def setitem_cells)
  moreover have "\<forall>x. x \<noteq> ''app_id'' \<and> x \<noteq> ''api_key'' \<longrightarrow> map_of (cells h3 a) x = map_of (cells h a) x"
    by (simp add: h1_def h2_def h3_def setitem_cells)
  ultimately show "\<exists>h'. merge_credentials a (Some cli) h = (Inr a, h') \<and>
        map_of (cells h' a) ''app_id'' = (if truthy u then Some u else map_of (cells h a) ''app_id'') \<and>
        map_of (cells h' a) ''api_key'' =
          (if truthy k then Some k else if truthy p then Some p else map_of (cells h a) ''api_key'') \<and>
        (\<forall>x. x \<noteq> ''app_id'' \<and> x \<noteq> ''api_key'' \<longrightarrow> map_of (cells h' a) x = map_of (cells h a) x)"
    using run by blast
qed

text \<open>
  A non-empty username and key with an empty password: both come from the command line.
\<close>

theorem merge_credentials_precedence_witness:
  "\<exists>h'. merge_credentials 0 (Some cli_override) (mem (plugin_state full_config)) = (Inr 0, h') \<and>
     map_of (cells h' 0) ''app_id'' = Some (Some ''CLI-APP'') \<and>
     map_of (cells h' 0) ''api_key'' = Some (Some ''CLI-KEY'')"
proof -
  have "map_of cli_override ''username'' = Some (Some ''CLI-APP'') \<and>
        map_of cli_override ''password'' = Some (Some '''') \<and>
        map_of cli_override ''key'' = Some (Some ''CLI-KEY'')"
    by (simp add: cli_override_def)
  with merge_credentials_precedence [of 0 "mem (plugin_state full_config)" cli_override
      "Some ''CLI-APP''" "Some ''''" "Some ''CLI-KEY''"]
  show ?thesis by auto
qed



end
